theory Spec2Isabelle
  imports Main "HOL-Library.Word" "HOL-Library.Signed_Division"
begin

unbundle bit_operations_syntax

section \<open>RegisterMap (src/hotspot/share/runtime/registerMap.hpp)\<close>

text \<open>
  The register map is the companion structure of one stack walk: a table of register
  locations, a packed bitset telling which entries were recorded, and a handful of
  configuration fields. The embedding passes the object explicitly: every member
  function takes the map, and a mutating one returns the updated map.
\<close>

subsection \<open>Machine types\<close>

text \<open>
  \<open>address\<close>, \<open>intptr_t*\<close>, \<open>JavaThread*\<close> and oops are 64-bit pointer values, \<open>NULL\<close>
  is 0. \<open>julong\<close> is the unsigned 64-bit integer, C++ \<open>int\<close> is 32 bits wide and read
  as two's complement by \<open>sint\<close>. A \<open>VMReg\<close> is used through \<open>reg->value()\<close> only, an
  \<open>intptr_t\<close> that the code divides and compares but never lets overflow, so it is
  an \<open>int\<close> here.
\<close>

type_synonym address = "64 word"
type_synonym LocationValidType = "64 word"
type_synonym c_int = "32 word"
type_synonym VMReg = int
type_synonym stackChunkOop = "64 word"

definition NULL :: "64 word" where
  "NULL = 0"

text \<open>
  What stops a call. \<open>AssertionFailure\<close> carries the message of the failed \<open>assert\<close>;
  the other two are the undefined behaviours the code can run into when no assertion
  guards it: an array access outside the array and a shift by a count outside
  \<open>[0, 64)\<close>.
\<close>

datatype vm_error = AssertionFailure string | OutOfBounds | UndefinedShift

subsection \<open>The fields\<close>

text \<open>
  Lines 74-87 and 96 of the header. \<open>_location\<close> has \<open>reg_count\<close> entries and
  \<open>_location_valid\<close> has \<open>location_valid_size\<close> words (see \<open>wf_map\<close>). The stack
  chunk handle is modelled by the oop it holds. \<open>_skip_missing\<close> and \<open>_async\<close> exist
  in non-product builds, \<open>_update_for_id\<close> in debug builds.
\<close>

record RegisterMap =
  m_location :: "address list"
  m_location_valid :: "LocationValidType list"
  m_include_argument_oops :: bool
  m_thread :: address
  m_chunk :: stackChunkOop
  m_chunk_index :: c_int
  m_update_map :: bool
  m_process_frames :: bool
  m_walk_cont :: bool
  m_skip_missing :: bool
  m_async :: bool
  m_update_for_id :: address

subsection \<open>What the header takes from elsewhere\<close>

text \<open>
  The header is compiled against parts that are not in the sources at hand; they are
  parameters of the model.
  \<^item> \<open>ASSERT\<close>: whether the build defines \<open>ASSERT\<close> (a debug build). HotSpot's \<open>assert\<close>
    stops the VM in such a build and is compiled away otherwise; the header itself
    switches \<open>check_location_valid\<close> on the same symbol.
  \<^item> \<open>number_of_registers\<close>: \<open>ConcreteRegisterImpl::number_of_registers\<close>.
  \<^item> \<open>pd_location\<close>, \<open>pd_location_slot\<close>: the two overloads of \<open>pd_location\<close> that
    \<open>CPU_HEADER(registerMap)\<close> declares inside the class. They are const member
    functions, so they receive the map.
  \<^item> \<open>check_location_valid\<close>: the debug-only member function called at the end of
    \<open>set_location\<close>, whose product variant is the empty body; it is a check that
    passes or stops the VM.
\<close>

record platform =
  ASSERT :: bool
  number_of_registers :: nat
  pd_location :: "RegisterMap \<Rightarrow> VMReg \<Rightarrow> address"
  pd_location_slot :: "RegisterMap \<Rightarrow> VMReg \<Rightarrow> c_int \<Rightarrow> address"
  check_location_valid :: "RegisterMap \<Rightarrow> bool"

subsection \<open>The enum constants (lines 68-72)\<close>

definition reg_count :: "platform \<Rightarrow> int" where
  "reg_count cfg = int (number_of_registers cfg)"

definition location_valid_type_size :: int where
  "location_valid_type_size = 8 * 8"

definition location_valid_size :: "platform \<Rightarrow> int" where
  "location_valid_size cfg =
     (reg_count cfg + location_valid_type_size - 1) sdiv location_valid_type_size"

text \<open>The two arrays have the sizes their declarations give them.\<close>

definition wf_map :: "platform \<Rightarrow> RegisterMap \<Rightarrow> bool" where
  "wf_map cfg m \<longleftrightarrow>
     int (length (m_location m)) = reg_count cfg \<and>
     int (length (m_location_valid m)) = location_valid_size cfg"

subsection \<open>Array accesses and the bit mask\<close>

text \<open>\<open>a[i]\<close> read and written, with the access outside the array made explicit.\<close>

definition array_at :: "'a list \<Rightarrow> int \<Rightarrow> vm_error + 'a" where
  "array_at xs i = (if 0 \<le> i \<and> i < int (length xs) then Inr (xs ! nat i) else Inl OutOfBounds)"

definition array_set :: "'a list \<Rightarrow> int \<Rightarrow> 'a \<Rightarrow> vm_error + 'a list" where
  "array_set xs i v =
     (if 0 \<le> i \<and> i < int (length xs) then Inr (xs[nat i := v]) else Inl OutOfBounds)"

text \<open>\<open>(LocationValidType)1 << k\<close>.\<close>

definition bit_mask :: "int \<Rightarrow> vm_error + LocationValidType" where
  "bit_mask k =
     (if 0 \<le> k \<and> k < location_valid_type_size then Inr (push_bit (nat k) 1)
      else Inl UndefinedShift)"

subsection \<open>Lookups (lines 101-122)\<close>

text \<open>
  \<open>location(VMReg reg, intptr_t* sp)\<close>. C++ \<open>/\<close> and \<open>%\<close> truncate towards zero
  (\<open>sdiv\<close>, \<open>smod\<close>). The argument \<open>sp\<close> is not used by the body.
  Line 102 keeps the quotient in an \<open>int\<close>; the model keeps it as it is, which is the
  same number for every register value below \<open>2 ^ 37\<close> in magnitude, far beyond any
  register count.
\<close>

definition location :: "platform \<Rightarrow> RegisterMap \<Rightarrow> VMReg \<Rightarrow> address \<Rightarrow> vm_error + address" where
  "location cfg m reg sp =
     (let index = reg sdiv location_valid_type_size in
      if ASSERT cfg \<and> \<not> (0 \<le> reg \<and> reg < reg_count cfg)
        then Inl (AssertionFailure ''range check'')
      else if ASSERT cfg \<and> \<not> (0 \<le> index \<and> index < location_valid_size cfg)
        then Inl (AssertionFailure ''range check'')
      else
        case array_at (m_location_valid m) index of
          Inl e \<Rightarrow> Inl e
        | Inr w \<Rightarrow>
            (case bit_mask (reg smod location_valid_type_size) of
               Inl e \<Rightarrow> Inl e
             | Inr msk \<Rightarrow>
                 if w AND msk \<noteq> 0 then array_at (m_location m) reg
                 else Inr (pd_location cfg m reg)))"

text \<open>\<open>location(VMReg base_reg, int slot_idx)\<close>.\<close>

definition location_slot :: "platform \<Rightarrow> RegisterMap \<Rightarrow> VMReg \<Rightarrow> c_int \<Rightarrow> vm_error + address" where
  "location_slot cfg m base_reg slot_idx =
     (if 0 < sint slot_idx then Inr (pd_location_slot cfg m base_reg slot_idx)
      else location cfg m base_reg NULL)"

definition trusted_location :: "RegisterMap \<Rightarrow> VMReg \<Rightarrow> vm_error + address" where
  "trusted_location m reg = array_at (m_location m) reg"

subsection \<open>verify (lines 124-128)\<close>

text \<open>
  The loop \<open>for (int i = 0; i < reg_count; ++i)\<close> from index \<open>i\<close> on. Its body is one
  \<open>assert\<close>, so without \<open>ASSERT\<close> it reads nothing. The map is not changed.
\<close>

function verify_from :: "platform \<Rightarrow> RegisterMap \<Rightarrow> RegisterMap \<Rightarrow> int \<Rightarrow> vm_error + unit" where
  "verify_from cfg m other i =
     (if i < reg_count cfg then
        (if ASSERT cfg then
           (case array_at (m_location m) i of
              Inl e \<Rightarrow> Inl e
            | Inr a \<Rightarrow>
                (case array_at (m_location other) i of
                   Inl e \<Rightarrow> Inl e
                 | Inr b \<Rightarrow>
                     if a = b then verify_from cfg m other (i + 1)
                     else Inl (AssertionFailure [])))
         else verify_from cfg m other (i + 1))
      else Inr ())"
  by pat_completeness auto
termination
  by (relation "measure (\<lambda>(cfg, m, other, i). nat (reg_count cfg - i))") auto

declare verify_from.simps [simp del]

definition verify :: "platform \<Rightarrow> RegisterMap \<Rightarrow> RegisterMap \<Rightarrow> vm_error + unit" where
  "verify cfg m other = verify_from cfg m other 0"

subsection \<open>set_location (lines 130-138)\<close>

definition set_location :: "platform \<Rightarrow> RegisterMap \<Rightarrow> VMReg \<Rightarrow> address \<Rightarrow> vm_error + RegisterMap" where
  "set_location cfg m reg loc =
     (let index = reg sdiv location_valid_type_size in
      if ASSERT cfg \<and> \<not> (0 \<le> reg \<and> reg < reg_count cfg)
        then Inl (AssertionFailure ''range check'')
      else if ASSERT cfg \<and> \<not> (0 \<le> index \<and> index < location_valid_size cfg)
        then Inl (AssertionFailure ''range check'')
      else if ASSERT cfg \<and> \<not> m_update_map m
        then Inl (AssertionFailure ''updating map that does not need updating'')
      else
        case array_set (m_location m) reg loc of
          Inl e \<Rightarrow> Inl e
        | Inr tbl \<Rightarrow>
            (case array_at (m_location_valid m) index of
               Inl e \<Rightarrow> Inl e
             | Inr w \<Rightarrow>
                 (case bit_mask (reg smod location_valid_type_size) of
                    Inl e \<Rightarrow> Inl e
                  | Inr msk \<Rightarrow>
                      (case array_set (m_location_valid m) index (w OR msk) of
                         Inl e \<Rightarrow> Inl e
                       | Inr valid \<Rightarrow>
                           (let m' = m\<lparr>m_location := tbl, m_location_valid := valid\<rparr> in
                            if ASSERT cfg \<and> \<not> check_location_valid cfg m'
                              then Inl (AssertionFailure ''check_location_valid'')
                            else Inr m')))))"

text \<open>
  The same nine lines statement by statement, keeping the object: the result pairs
  what stopped the call (\<open>None\<close> when it returns) with the map as the call leaves
  it. A failed assertion stops the VM with the object as it is at that line, so the
  three assertions of lines 132-134 leave the map they were given, the store of line
  135 is in the map from then on, and the one of line 136 after it.
\<close>

definition set_location_run ::
  "platform \<Rightarrow> RegisterMap \<Rightarrow> VMReg \<Rightarrow> address \<Rightarrow> vm_error option \<times> RegisterMap" where
  "set_location_run cfg m reg loc =
     (let index = reg sdiv location_valid_type_size in
      if ASSERT cfg \<and> \<not> (0 \<le> reg \<and> reg < reg_count cfg)
        then (Some (AssertionFailure ''range check''), m)
      else if ASSERT cfg \<and> \<not> (0 \<le> index \<and> index < location_valid_size cfg)
        then (Some (AssertionFailure ''range check''), m)
      else if ASSERT cfg \<and> \<not> m_update_map m
        then (Some (AssertionFailure ''updating map that does not need updating''), m)
      else
        case array_set (m_location m) reg loc of
          Inl e \<Rightarrow> (Some e, m)
        | Inr tbl \<Rightarrow>
            (let m1 = m\<lparr>m_location := tbl\<rparr> in
             case array_at (m_location_valid m1) index of
               Inl e \<Rightarrow> (Some e, m1)
             | Inr w \<Rightarrow>
                 (case bit_mask (reg smod location_valid_type_size) of
                    Inl e \<Rightarrow> (Some e, m1)
                  | Inr msk \<Rightarrow>
                      (case array_set (m_location_valid m1) index (w OR msk) of
                         Inl e \<Rightarrow> (Some e, m1)
                       | Inr valid \<Rightarrow>
                           (let m2 = m1\<lparr>m_location_valid := valid\<rparr> in
                            if ASSERT cfg \<and> \<not> check_location_valid cfg m2
                              then (Some (AssertionFailure ''check_location_valid''), m2)
                            else (None, m2))))))"

subsection \<open>Accessors and setters (lines 143-158)\<close>

definition include_argument_oops :: "RegisterMap \<Rightarrow> bool" where
  "include_argument_oops m = m_include_argument_oops m"

definition set_include_argument_oops :: "RegisterMap \<Rightarrow> bool \<Rightarrow> RegisterMap" where
  "set_include_argument_oops m f = m\<lparr>m_include_argument_oops := f\<rparr>"

definition thread :: "RegisterMap \<Rightarrow> address" where
  "thread m = m_thread m"

definition update_map :: "RegisterMap \<Rightarrow> bool" where
  "update_map m = m_update_map m"

definition process_frames :: "RegisterMap \<Rightarrow> bool" where
  "process_frames m = m_process_frames m"

definition walk_cont :: "RegisterMap \<Rightarrow> bool" where
  "walk_cont m = m_walk_cont m"

definition set_walk_cont :: "RegisterMap \<Rightarrow> bool \<Rightarrow> RegisterMap" where
  "set_walk_cont m v = m\<lparr>m_walk_cont := v\<rparr>"

definition in_cont :: "RegisterMap \<Rightarrow> bool" where
  "in_cont m \<longleftrightarrow> m_chunk m \<noteq> NULL"

definition stack_chunk :: "RegisterMap \<Rightarrow> stackChunkOop" where
  "stack_chunk m = m_chunk m"

definition stack_chunk_index :: "RegisterMap \<Rightarrow> c_int" where
  "stack_chunk_index m = m_chunk_index m"

definition set_stack_chunk_index :: "RegisterMap \<Rightarrow> c_int \<Rightarrow> RegisterMap" where
  "set_stack_chunk_index m index = m\<lparr>m_chunk_index := index\<rparr>"

subsection \<open>Member functions declared in the header and defined elsewhere\<close>

text \<open>
  Modelled from the spec: the body of \<open>RegisterMap::clear()\<close> (declared at line 141,
  defined outside the sources at hand). Spec 4.1: "zeroes the validity bitset (all
  registers become unknown; subsequent lookups fall back to platform derivation)".
\<close>

definition clear :: "RegisterMap \<Rightarrow> RegisterMap" where
  "clear m = m\<lparr>m_location_valid := map (\<lambda>w. 0) (m_location_valid m)\<rparr>"

text \<open>
  Modelled from the spec: the body of \<open>RegisterMap::set_stack_chunk(stackChunkOop)\<close>
  (declared at line 156, defined outside the sources at hand). Spec 4.3: "attaches a
  new segment handle and increments chunkIndex"; the header's comment on
  \<open>_chunk_index\<close> reads "incremented whenever a new chunk is set". The index is a C++
  \<open>int\<close>: the increment is the machine's, which wraps at \<open>INT_MAX\<close>.
\<close>

definition set_stack_chunk :: "RegisterMap \<Rightarrow> stackChunkOop \<Rightarrow> RegisterMap" where
  "set_stack_chunk m chunk = m\<lparr>m_chunk := chunk, m_chunk_index := m_chunk_index m + 1\<rparr>"

subsection \<open>The validity bit of a register\<close>

text \<open>Bit \<open>reg mod 64\<close> of word \<open>reg div 64\<close> of the bitset, for \<open>reg\<close> in range.\<close>

definition location_valid_bit :: "RegisterMap \<Rightarrow> VMReg \<Rightarrow> bool" where
  "location_valid_bit m reg \<longleftrightarrow>
     bit (m_location_valid m ! nat (reg div 64)) (nat (reg mod 64))"

subsection \<open>A platform and a map to compute with\<close>

text \<open>
  A platform with \<open>n\<close> registers in which register 1 is the upper half of a composite
  register based at register 0: its fallback is four bytes past the recorded location of
  register 0, and \<open>NULL\<close> while none is recorded. Every other register falls back to
  \<open>NULL\<close>. The map is a freshly constructed one: no validity bit set, the table
  holding whatever was in memory.
\<close>

definition example_platform :: "bool \<Rightarrow> nat \<Rightarrow> platform" where
  "example_platform dbg n =
     \<lparr>ASSERT = dbg, number_of_registers = n,
      pd_location = (\<lambda>m reg.
        if reg = 1 \<and> location_valid_bit m 0 then m_location m ! 0 + 4 else NULL),
      pd_location_slot = (\<lambda>m reg slot_idx. 0x9000),
      check_location_valid = (\<lambda>m. True)\<rparr>"

definition example_map :: "nat \<Rightarrow> bool \<Rightarrow> RegisterMap" where
  "example_map n upd =
     \<lparr>m_location = replicate n 0xDEAD,
      m_location_valid = replicate ((n + 63) div 64) 0,
      m_include_argument_oops = True,
      m_thread = 0x5000,
      m_chunk = NULL,
      m_chunk_index = 0,
      m_update_map = upd,
      m_process_frames = True,
      m_walk_cont = False,
      m_skip_missing = False,
      m_async = False,
      m_update_for_id = NULL\<rparr>"

section \<open>Arithmetic of the bitset\<close>

lemma sdiv_nonneg: "0 \<le> (a::int) \<Longrightarrow> a sdiv location_valid_type_size = a div 64"
  by (simp add: signed_divide_int_def sgn_if location_valid_type_size_def)

lemma smod_nonneg: "0 \<le> (a::int) \<Longrightarrow> a smod location_valid_type_size = a mod 64"
  by (simp add: signed_modulo_int_def sgn_if location_valid_type_size_def)

lemma location_valid_size_eq: "location_valid_size cfg = (reg_count cfg + 63) div 64"
proof -
  have "0 \<le> reg_count cfg + location_valid_type_size - 1"
    by (simp add: reg_count_def location_valid_type_size_def)
  then have "location_valid_size cfg = (reg_count cfg + location_valid_type_size - 1) div 64"
    unfolding location_valid_size_def by (rule sdiv_nonneg)
  then show ?thesis by (simp add: location_valid_type_size_def)
qed

lemma index_in_range:
  assumes "0 \<le> r" "r < reg_count cfg"
  shows "0 \<le> r div 64" "r div 64 < location_valid_size cfg"
  using assms by (simp_all add: location_valid_size_eq)

lemma bit_mask_in_range:
  "0 \<le> r \<Longrightarrow> bit_mask (r smod location_valid_type_size) = Inr (push_bit (nat (r mod 64)) 1)"
  by (simp add: bit_mask_def smod_nonneg) (simp add: location_valid_type_size_def)

section \<open>The lookups on a register in range\<close>

lemma location_in_range:
  assumes "wf_map cfg m" "0 \<le> r" "r < reg_count cfg"
  shows "location cfg m r sp =
    Inr (if location_valid_bit m r then m_location m ! nat r else pd_location cfg m r)"
proof -
  have i: "0 \<le> r div 64" "r div 64 < location_valid_size cfg"
    using assms(2,3) by (rule index_in_range)+
  have len: "r div 64 < int (length (m_location_valid m))" "r < int (length (m_location m))"
    using assms i by (simp_all add: wf_map_def)
  show ?thesis
    using assms(2,3) i len
    by (simp add: location_def Let_def sdiv_nonneg bit_mask_in_range array_at_def
        and_exp_eq_0_iff_not_bit location_valid_bit_def)
qed

lemma trusted_location_in_range:
  assumes "wf_map cfg m" "0 \<le> r" "r < reg_count cfg"
  shows "trusted_location m r = Inr (m_location m ! nat r)"
  using assms by (simp add: trusted_location_def array_at_def wf_map_def)

lemma wf_example_map: "wf_map (example_platform dbg n) (example_map n upd)"
  by (simp add: wf_map_def example_platform_def example_map_def reg_count_def
      location_valid_size_eq zdiv_int)

section \<open>What a returning set_location has done\<close>

lemma set_location_InrD:
  assumes "set_location cfg m r loc = Inr m'"
  shows "0 \<le> r" and "r < int (length (m_location m))"
    and "r div 64 < int (length (m_location_valid m))"
    and "ASSERT cfg \<Longrightarrow> r < reg_count cfg"
    and "ASSERT cfg \<Longrightarrow> m_update_map m"
    and "ASSERT cfg \<Longrightarrow> check_location_valid cfg m'"
    and "m' = m\<lparr>m_location := (m_location m)[nat r := loc],
                 m_location_valid := (m_location_valid m)[nat (r div 64) :=
                   m_location_valid m ! nat (r div 64) OR push_bit (nat (r mod 64)) 1]\<rparr>"
proof -
  from assms have r0: "0 \<le> r" and r1: "r < int (length (m_location m))"
    by (auto simp: set_location_def Let_def array_set_def split: if_splits sum.splits)
  note rw = sdiv_nonneg [OF r0] bit_mask_in_range [OF r0]
  from assms r0 show "r div 64 < int (length (m_location_valid m))"
    by (auto simp: set_location_def Let_def rw array_set_def array_at_def
        split: if_splits sum.splits)
  from assms r0 show "ASSERT cfg \<Longrightarrow> r < reg_count cfg"
    by (auto simp: set_location_def Let_def split: if_splits)
  from assms r0 show "ASSERT cfg \<Longrightarrow> m_update_map m"
    by (auto simp: set_location_def Let_def split: if_splits)
  from assms r0 show "ASSERT cfg \<Longrightarrow> check_location_valid cfg m'"
    by (auto simp: set_location_def Let_def rw array_set_def array_at_def
        split: if_splits sum.splits)
  from assms r0 show "m' = m\<lparr>m_location := (m_location m)[nat r := loc],
                 m_location_valid := (m_location_valid m)[nat (r div 64) :=
                   m_location_valid m ! nat (r div 64) OR push_bit (nat (r mod 64)) 1]\<rparr>"
    by (auto simp: set_location_def Let_def rw array_set_def array_at_def
        split: if_splits sum.splits)
  show "0 \<le> r" "r < int (length (m_location m))" by (fact r0 r1)+
qed

lemma set_location_in_range:
  assumes "wf_map cfg m" "0 \<le> r" "r < reg_count cfg" "ASSERT cfg \<longrightarrow> m_update_map m"
  shows "set_location cfg m r loc =
     (let m' = m\<lparr>m_location := (m_location m)[nat r := loc],
                 m_location_valid := (m_location_valid m)[nat (r div 64) :=
                   m_location_valid m ! nat (r div 64) OR push_bit (nat (r mod 64)) 1]\<rparr>
      in if ASSERT cfg \<and> \<not> check_location_valid cfg m'
         then Inl (AssertionFailure ''check_location_valid'') else Inr m')"
proof -
  have i: "0 \<le> r div 64" "r div 64 < location_valid_size cfg"
    using assms(2,3) by (rule index_in_range)+
  have len: "r div 64 < int (length (m_location_valid m))" "r < int (length (m_location m))"
    using assms i by (simp_all add: wf_map_def)
  show ?thesis
    using assms(2,3,4) i len
    by (simp add: set_location_def Let_def sdiv_nonneg bit_mask_in_range array_at_def
        array_set_def)
qed

lemma location_after_set_location:
  assumes "set_location cfg m r loc = Inr m'"
  shows "location cfg m' r sp = Inr loc"
proof -
  note d = set_location_InrD [OF assms]
  have i: "0 \<le> r div 64" using d(1) by simp
  have a2: "ASSERT cfg \<Longrightarrow> r div 64 < location_valid_size cfg"
    using d(1,4) by (simp add: index_in_range)
  have len: "r div 64 < int (length (m_location_valid m'))" "r < int (length (m_location m'))"
    using d(2,3) by (simp_all add: d(7))
  have v: "m_location_valid m' ! nat (r div 64) AND push_bit (nat (r mod 64)) 1 \<noteq> 0"
    using d(3) i by (simp add: d(7) and_exp_eq_0_iff_not_bit bit_or_iff bit_exp_iff)
  have t: "m_location m' ! nat r = loc"
    using d(1,2) by (simp add: d(7))
  show ?thesis
    using d(1,4) i a2 len v t
    by (simp add: location_def Let_def sdiv_nonneg bit_mask_in_range array_at_def)
qed

lemma trusted_location_after_set_location:
  assumes "set_location cfg m r loc = Inr m'"
  shows "trusted_location m' r = Inr loc"
  using set_location_InrD(1,2) [OF assms]
  by (simp add: set_location_InrD(7) [OF assms] trusted_location_def array_at_def)

section \<open>set_location and its statement-by-statement run\<close>

lemma set_location_run_eq:
  "set_location cfg m reg loc =
     (case set_location_run cfg m reg loc of
        (None, m') \<Rightarrow> Inr m'
      | (Some e, m') \<Rightarrow> Inl e)"
  by (auto simp: set_location_def set_location_run_def Let_def split: sum.splits)

lemma set_location_run_read_only:
  assumes "ASSERT cfg" "\<not> m_update_map m"
  shows "snd (set_location_run cfg m reg loc) = m"
    and "\<exists>msg. fst (set_location_run cfg m reg loc) = Some (AssertionFailure msg)"
    and "0 \<le> reg \<Longrightarrow> reg < reg_count cfg \<Longrightarrow>
           fst (set_location_run cfg m reg loc) =
             Some (AssertionFailure ''updating map that does not need updating'')"
proof -
  show "snd (set_location_run cfg m reg loc) = m"
    using assms by (simp add: set_location_run_def Let_def)
  show "\<exists>msg. fst (set_location_run cfg m reg loc) = Some (AssertionFailure msg)"
    using assms by (simp add: set_location_run_def Let_def)
  show "fst (set_location_run cfg m reg loc) =
      Some (AssertionFailure ''updating map that does not need updating'')"
    if "0 \<le> reg" "reg < reg_count cfg"
    using that assms index_in_range [OF that]
    by (simp add: set_location_run_def Let_def sdiv_nonneg)
qed

section \<open>The chunk index as a signed 32-bit integer\<close>

lemma sint_c_int_not_max:
  assumes "(w :: c_int) \<noteq> 0x7FFFFFFF"
  shows "sint w < 2147483647"
proof (rule ccontr)
  assume "\<not> sint w < 2147483647"
  moreover have "sint w < 2 ^ 31"
    using sint_lt [of w] by simp
  ultimately have "sint w = 2147483647" by simp
  then have "word_of_int (sint w) = (word_of_int 2147483647 :: c_int)" by simp
  then have "w = 0x7FFFFFFF" by simp
  with assms show False by simp
qed

lemma sint_c_int_succ:
  assumes "sint (w :: c_int) < 2147483647"
  shows "sint (w + 1) = sint w + 1"
  using assms sint_ge [of w]
  by (simp add: sint_word_ariths signed_take_bit_int_eq_self)

section \<open>Registers other than the one set\<close>

lemma div_mod_differ:
  assumes "(r::int) \<noteq> r'" "0 \<le> r" "0 \<le> r'" "nat (r' div 64) = nat (r div 64)"
  shows "nat (r' mod 64) \<noteq> nat (r mod 64)"
proof
  assume "nat (r' mod 64) = nat (r mod 64)"
  then have "r' mod 64 = r mod 64" by simp
  moreover have "r' div 64 = r div 64" using assms(2,3,4) by simp
  ultimately have "r' = r"
    by (metis mult_div_mod_eq)
  with assms(1) show False by simp
qed

lemma location_valid_bit_other:
  assumes "set_location cfg m r addr = Inr m'" "r' \<noteq> r" "0 \<le> r'"
  shows "location_valid_bit m' r' = location_valid_bit m r'"
proof -
  note d = set_location_InrD [OF assms(1)]
  show ?thesis
  proof (cases "nat (r' div 64) = nat (r div 64)")
    case False
    then show ?thesis
      by (simp add: d(7) location_valid_bit_def)
  next
    case True
    have k: "nat (r' mod 64) \<noteq> nat (r mod 64)"
      using div_mod_differ [OF _ d(1) assms(3) True] assms(2) by simp
    have "nat (r div 64) < length (m_location_valid m)"
      using d(1,3) by (simp add: nat_less_iff)
    then show ?thesis
      using k by (simp add: d(7) location_valid_bit_def True bit_or_iff bit_exp_iff)
  qed
qed

lemma location_other:
  assumes "set_location cfg m r addr = Inr m'" "r' \<noteq> r" "0 \<le> r'"
    and "location_valid_bit m r' \<or> pd_location cfg m' r' = pd_location cfg m r'"
  shows "location cfg m' r' fp = location cfg m r' fp"
proof -
  note d = set_location_InrD [OF assms(1)]
  have len: "length (m_location m') = length (m_location m)"
    "length (m_location_valid m') = length (m_location_valid m)"
    by (simp_all add: d(7))
  have tbl: "m_location m' ! nat r' = m_location m ! nat r'"
    using assms(2,3) d(1) by (simp add: d(7))
  have v: "bit (m_location_valid m' ! nat (r' div 64)) (nat (r' mod 64)) =
           bit (m_location_valid m ! nat (r' div 64)) (nat (r' mod 64))"
    using location_valid_bit_other [OF assms(1,2,3)] by (simp add: location_valid_bit_def)
  show ?thesis
    using assms(3,4)
    by (auto simp: location_def Let_def sdiv_nonneg bit_mask_in_range array_at_def len tbl
        and_exp_eq_0_iff_not_bit v location_valid_bit_def)
qed

section \<open>clear and verify\<close>

lemma wf_map_clear: "wf_map cfg (clear m) = wf_map cfg m"
  by (simp add: wf_map_def clear_def)

lemma location_valid_bit_clear:
  assumes "wf_map cfg m" "0 \<le> r" "r < reg_count cfg"
  shows "\<not> location_valid_bit (clear m) r"
proof -
  have "r div 64 < location_valid_size cfg"
    using assms(2,3) by (rule index_in_range)
  then have "nat (r div 64) < length (m_location_valid m)"
    using assms(1,2) by (simp add: wf_map_def nat_less_iff)
  then show ?thesis
    by (simp add: location_valid_bit_def clear_def)
qed

lemma verify_from_product:
  "\<not> ASSERT cfg \<Longrightarrow> verify_from cfg m other i = Inr ()"
proof (induction cfg m other i rule: verify_from.induct)
  case (1 cfg m other i)
  then show ?case
    by (subst verify_from.simps) simp
qed

lemma verify_from_debug:
  assumes "ASSERT cfg" "wf_map cfg m" "wf_map cfg other"
  shows "0 \<le> i \<Longrightarrow> verify_from cfg m other i =
    (if \<forall>j. i \<le> j \<and> j < reg_count cfg \<longrightarrow> m_location m ! nat j = m_location other ! nat j
     then Inr () else Inl (AssertionFailure []))"
  using assms
proof (induction cfg m other i rule: verify_from.induct)
  case (1 cfg m other i)
  show ?case
  proof (cases "i < reg_count cfg")
    case False
    then show ?thesis by (subst verify_from.simps) simp
  next
    case True
    have len: "i < int (length (m_location m))" "i < int (length (m_location other))"
      using True "1.prems" by (simp_all add: wf_map_def)
    show ?thesis
    proof (cases "m_location m ! nat i = m_location other ! nat i")
      case False
      then have "\<not> (\<forall>j. i \<le> j \<and> j < reg_count cfg \<longrightarrow>
          m_location m ! nat j = m_location other ! nat j)"
        using True by auto
      with False True len "1.prems" show ?thesis
        by (subst verify_from.simps) (simp add: array_at_def)
    next
      case eq: True
      have ih: "verify_from cfg m other (i + 1) =
        (if \<forall>j. i + 1 \<le> j \<and> j < reg_count cfg \<longrightarrow>
              m_location m ! nat j = m_location other ! nat j
         then Inr () else Inl (AssertionFailure []))"
        using "1.IH"(1) [OF True "1.prems"(2) _ _ eq] len "1.prems"
        by (simp add: array_at_def)
      have split: "(\<forall>j. i \<le> j \<and> j < reg_count cfg \<longrightarrow>
            m_location m ! nat j = m_location other ! nat j) =
          (\<forall>j. i + 1 \<le> j \<and> j < reg_count cfg \<longrightarrow>
            m_location m ! nat j = m_location other ! nat j)"
      proof (intro iffI allI impI)
        fix j
        assume "\<forall>j. i \<le> j \<and> j < reg_count cfg \<longrightarrow>
            m_location m ! nat j = m_location other ! nat j"
          and "i + 1 \<le> j \<and> j < reg_count cfg"
        then show "m_location m ! nat j = m_location other ! nat j" by simp
      next
        fix j
        assume a: "\<forall>j. i + 1 \<le> j \<and> j < reg_count cfg \<longrightarrow>
            m_location m ! nat j = m_location other ! nat j"
          and b: "i \<le> j \<and> j < reg_count cfg"
        show "m_location m ! nat j = m_location other ! nat j"
        proof (cases "j = i")
          case True
          then show ?thesis using eq by simp
        next
          case False
          with b have "i + 1 \<le> j" by simp
          with a b show ?thesis by blast
        qed
      qed
      show ?thesis
        using True len "1.prems" eq
        by (subst verify_from.simps) (simp add: array_at_def ih split)
    qed
  qed
qed

section \<open>The claims\<close>

text \<open>
  C1. For a register in range, \<open>location\<close> returns the platform fallback
  \<open>pd_location(reg)\<close> when the register's validity bit is not set, whatever the table
  holds at that index, and the stored address, the one \<open>trusted_location\<close> returns,
  when the bit is set. The source hands the fallback the register (and the map it is a
  member of), not \<open>sp\<close>: the result is the same for every frame pointer.
\<close>

theorem location_when_valid_or_not:
  assumes "wf_map cfg m" "0 \<le> r" "r < reg_count cfg"
  shows "(\<not> location_valid_bit m r \<longrightarrow> location cfg m r fp = Inr (pd_location cfg m r)) \<and>
         (location_valid_bit m r \<longrightarrow> location cfg m r fp = trusted_location m r)"
  using assms by (simp add: location_in_range trusted_location_in_range)

text \<open>
  C1, at a map of four registers whose table holds \<open>0xDEAD\<close> everywhere: register 3,
  not valid, is looked up by the fallback; register 2, valid, by the table.
\<close>

theorem location_when_valid_or_not_witness:
  "location (example_platform True 4) (example_map 4 True) 3 0x100 = Inr NULL \<and>
   location (example_platform True 4)
     ((example_map 4 True)\<lparr>m_location_valid := [4]\<rparr>) 2 0x100 = Inr 0xDEAD"
  using location_when_valid_or_not
      [where cfg = "example_platform True 4" and m = "example_map 4 True" and r = 3
        and fp = "0x100"]
    location_when_valid_or_not
      [where cfg = "example_platform True 4"
        and m = "(example_map 4 True)\<lparr>m_location_valid := [4]\<rparr>" and r = 2
        and fp = "0x100"]
  by (simp add: wf_map_def example_platform_def example_map_def reg_count_def
      location_valid_size_eq location_valid_bit_def trusted_location_def array_at_def)

text \<open>
  C2, as stated, fails in a build without \<open>ASSERT\<close>: the assertion on \<open>_update_map\<close>
  is compiled away, \<open>set_location\<close> on a map constructed with updating disabled
  returns, and the lookup that fell back to the platform before now returns the
  written address.
\<close>

theorem set_location_read_only_counterexample:
  "\<not> update_map (example_map 4 False) \<and>
   location (example_platform False 4) (example_map 4 False) 2 0x100 = Inr NULL \<and>
   set_location (example_platform False 4) (example_map 4 False) 2 0x1000 =
     Inr ((example_map 4 False)
            \<lparr>m_location := [0xDEAD, 0xDEAD, 0x1000, 0xDEAD], m_location_valid := [4]\<rparr>) \<and>
   location (example_platform False 4)
     ((example_map 4 False)
        \<lparr>m_location := [0xDEAD, 0xDEAD, 0x1000, 0xDEAD], m_location_valid := [4]\<rparr>) 2 0x100 =
     Inr 0x1000"
  by code_simp

text \<open>
  C2, amended: in a build with \<open>ASSERT\<close>, \<open>set_location\<close> on a map with updating
  disabled stops at a failed assertion, for a register in range at the assertion
  "updating map that does not need updating", and the map the stopped call leaves is
  the map it was given: nothing was stored, so every lookup, \<open>location\<close> and
  \<open>trusted_location\<close> of every register, is what it was before the call.
\<close>

theorem set_location_read_only_debug:
  assumes "ASSERT cfg" "\<not> update_map m"
  shows "(\<exists>msg. set_location_run cfg m r addr = (Some (AssertionFailure msg), m) \<and>
                set_location cfg m r addr = Inl (AssertionFailure msg)) \<and>
         (0 \<le> r \<and> r < reg_count cfg \<longrightarrow>
            set_location_run cfg m r addr =
              (Some (AssertionFailure ''updating map that does not need updating''), m) \<and>
            set_location cfg m r addr =
              Inl (AssertionFailure ''updating map that does not need updating'')) \<and>
         (\<forall>r' fp. location cfg (snd (set_location_run cfg m r addr)) r' fp =
                   location cfg m r' fp) \<and>
         (\<forall>r'. trusted_location (snd (set_location_run cfg m r addr)) r' =
                trusted_location m r')"
proof -
  have u: "\<not> m_update_map m"
    using assms(2) by (simp add: update_map_def)
  note ro = set_location_run_read_only [OF assms(1) u, of r addr]
  from ro(2) obtain msg where
    f: "fst (set_location_run cfg m r addr) = Some (AssertionFailure msg)" ..
  have run: "set_location_run cfg m r addr = (Some (AssertionFailure msg), m)"
    using f ro(1) by (simp add: prod_eq_iff)
  have res: "set_location cfg m r addr = Inl (AssertionFailure msg)"
    by (simp add: set_location_run_eq run)
  have named: "msg = ''updating map that does not need updating''"
    if "0 \<le> r" "r < reg_count cfg"
    using ro(3) [OF that] f by simp
  show ?thesis
    using run res named by (auto simp: ro(1))
qed

text \<open>
  C2, amended, at register 2 of a read-only map of four registers: the call stops at
  the assertion, leaves the map as constructed, and the lookup of register 2 is still
  the fallback.
\<close>

theorem set_location_read_only_debug_witness:
  "set_location_run (example_platform True 4) (example_map 4 False) 2 0x1000 =
     (Some (AssertionFailure ''updating map that does not need updating''),
      example_map 4 False) \<and>
   set_location (example_platform True 4) (example_map 4 False) 2 0x1000 =
     Inl (AssertionFailure ''updating map that does not need updating'') \<and>
   location (example_platform True 4)
     (snd (set_location_run (example_platform True 4) (example_map 4 False) 2 0x1000))
     2 0x100 = Inr NULL"
proof -
  let ?cfg = "example_platform True 4"
  let ?m = "example_map 4 False"
  have a: "ASSERT ?cfg" by (simp add: example_platform_def)
  have u: "\<not> update_map ?m" by (simp add: update_map_def example_map_def)
  have r: "(0::int) \<le> 2 \<and> 2 < reg_count ?cfg"
    by (simp add: reg_count_def example_platform_def)
  have l: "location ?cfg ?m 2 0x100 = Inr NULL"
    using location_in_range
        [where cfg = "example_platform True 4" and m = "example_map 4 False" and r = 2
          and sp = "0x100", OF wf_example_map] r
    by (simp add: location_valid_bit_def example_map_def example_platform_def)
  show ?thesis
    using set_location_read_only_debug [OF a u, where r = 2 and addr = "0x1000"] r l
    by simp
qed

text \<open>
  C3. On a map with updating enabled and a register in range, \<open>set_location\<close>
  returns, and in the map it returns \<open>location\<close> gives the address for every frame
  pointer and so does \<open>trusted_location\<close>. The one call whose body is not at hand,
  the debug build's \<open>check_location_valid()\<close>, is assumed to accept the map with the
  address stored and the bit set.
\<close>

theorem set_location_then_lookup:
  assumes "wf_map cfg m" "0 \<le> r" "r < reg_count cfg" "update_map m"
    and "ASSERT cfg \<Longrightarrow> check_location_valid cfg
           (m\<lparr>m_location := (m_location m)[nat r := addr],
              m_location_valid := (m_location_valid m)[nat (r div 64) :=
                m_location_valid m ! nat (r div 64) OR push_bit (nat (r mod 64)) 1]\<rparr>)"
  shows "\<exists>m'. set_location cfg m r addr = Inr m' \<and>
           (\<forall>fp. location cfg m' r fp = Inr addr) \<and> trusted_location m' r = Inr addr"
proof -
  from assms obtain m' where s: "set_location cfg m r addr = Inr m'"
    by (auto simp: set_location_in_range update_map_def Let_def)
  then show ?thesis
    by (simp add: location_after_set_location trusted_location_after_set_location)
qed

text \<open>C3, at register 65 of 70, whose validity bit is bit 1 of the second word.\<close>

theorem set_location_then_lookup_witness:
  "set_location (example_platform True 70) (example_map 70 True) 65 0x1000 =
     Inr ((example_map 70 True)
            \<lparr>m_location := (replicate 70 0xDEAD)[65 := 0x1000], m_location_valid := [0, 2]\<rparr>) \<and>
   location (example_platform True 70)
     ((example_map 70 True)
        \<lparr>m_location := (replicate 70 0xDEAD)[65 := 0x1000], m_location_valid := [0, 2]\<rparr>)
     65 0x100 = Inr 0x1000 \<and>
   trusted_location
     ((example_map 70 True)
        \<lparr>m_location := (replicate 70 0xDEAD)[65 := 0x1000], m_location_valid := [0, 2]\<rparr>)
     65 = Inr 0x1000"
proof -
  let ?cfg = "example_platform True 70"
  let ?m = "example_map 70 True"
  let ?m' = "(example_map 70 True)
      \<lparr>m_location := (replicate 70 0xDEAD)[65 := 0x1000], m_location_valid := [0, 2]\<rparr>"
  have w: "wf_map ?cfg ?m"
    by (rule wf_example_map)
  have r: "(0::int) \<le> 65" "65 < reg_count ?cfg"
    by (simp_all add: reg_count_def example_platform_def)
  have u: "update_map ?m"
    by (simp add: update_map_def example_map_def)
  have c: "check_location_valid ?cfg x" for x
    by (simp add: example_platform_def)
  obtain m' where s: "set_location ?cfg ?m 65 0x1000 = Inr m'"
    and l: "\<forall>fp. location ?cfg m' 65 fp = Inr 0x1000"
    and t: "trusted_location m' 65 = Inr 0x1000"
    using set_location_then_lookup [OF w r u c] by blast
  have tbl: "m_location ?m = replicate 70 0xDEAD"
    by (simp add: example_map_def)
  have vld: "m_location_valid ?m = [0, 0]"
    by (simp add: example_map_def numeral_2_eq_2)
  have "ASSERT ?cfg \<longrightarrow> m_update_map ?m"
    using u by (simp add: update_map_def)
  then have "set_location ?cfg ?m 65 0x1000 = Inr ?m'"
    by (simp add: set_location_in_range [OF w r] Let_def c tbl vld)
  with s have "m' = ?m'" by simp
  with s l t show ?thesis by simp
qed

text \<open>
  C4. With a positive slot index the slot overload returns what the platform's
  multi-slot resolver returns, for every map, so also when the base register's validity
  bit is set; with slot index 0 it is the scalar lookup, at any frame pointer.
\<close>

theorem location_slot_dispatch:
  "(0 < sint slot_idx \<longrightarrow>
      location_slot cfg m base_reg slot_idx = Inr (pd_location_slot cfg m base_reg slot_idx)) \<and>
   location_slot cfg m base_reg 0 = location cfg m base_reg fp"
  by (simp add: location_slot_def location_def)

text \<open>
  C4, at base register 2 with its validity bit set: slot 1 goes to the resolver
  (\<open>0x9000\<close>), slot 0 to the table (\<open>0xDEAD\<close>).
\<close>

theorem location_slot_dispatch_witness:
  "location_valid_bit ((example_map 4 True)\<lparr>m_location_valid := [4]\<rparr>) 2 \<and>
   location_slot (example_platform True 4)
     ((example_map 4 True)\<lparr>m_location_valid := [4]\<rparr>) 2 1 = Inr 0x9000 \<and>
   location_slot (example_platform True 4)
     ((example_map 4 True)\<lparr>m_location_valid := [4]\<rparr>) 2 0 = Inr 0xDEAD"
  using location_slot_dispatch [of 1 "example_platform True 4"
      "(example_map 4 True)\<lparr>m_location_valid := [4]\<rparr>" 2 "0x100"]
    location_in_range [of "example_platform True 4"
      "(example_map 4 True)\<lparr>m_location_valid := [4]\<rparr>" 2 "0x100"]
  by (simp add: example_platform_def example_map_def location_valid_bit_def wf_map_def
      reg_count_def location_valid_size_eq)

text \<open>
  C5. After \<open>clear()\<close> the validity bit of every register in range is false and
  \<open>location\<close> returns the platform fallback, whatever was recorded before.
\<close>

theorem clear_then_location:
  assumes "wf_map cfg m" "0 \<le> r" "r < reg_count cfg"
  shows "\<not> location_valid_bit (clear m) r \<and>
         location cfg (clear m) r fp = Inr (pd_location cfg (clear m) r)"
  using assms location_valid_bit_clear [OF assms]
  by (simp add: location_in_range wf_map_clear)

text \<open>
  C5, at a map in which register 2 was recorded at \<open>0x1000\<close>: the lookup returns the
  recorded address before \<open>clear()\<close> and the fallback after it.
\<close>

theorem clear_then_location_witness:
  "location (example_platform True 4)
     ((example_map 4 True)
        \<lparr>m_location := [0xDEAD, 0xDEAD, 0x1000, 0xDEAD], m_location_valid := [4]\<rparr>) 2 0x100
     = Inr 0x1000 \<and>
   location (example_platform True 4)
     (clear ((example_map 4 True)
        \<lparr>m_location := [0xDEAD, 0xDEAD, 0x1000, 0xDEAD], m_location_valid := [4]\<rparr>)) 2 0x100
     = Inr NULL"
proof -
  let ?m = "(example_map 4 True)
        \<lparr>m_location := [0xDEAD, 0xDEAD, 0x1000, 0xDEAD], m_location_valid := [4]\<rparr>"
  have w: "wf_map (example_platform True 4) ?m"
    by (simp add: wf_map_def example_platform_def example_map_def reg_count_def
        location_valid_size_eq)
  have r: "(0::int) \<le> 2" "2 < reg_count (example_platform True 4)"
    by (simp_all add: reg_count_def example_platform_def)
  have "location (example_platform True 4) (clear ?m) 2 0x100 = Inr NULL"
    using clear_then_location [OF w r, of "0x100"]
    by (simp add: example_platform_def)
  moreover have "location (example_platform True 4) ?m 2 0x100 = Inr 0x1000"
    by code_simp
  ultimately show ?thesis by simp
qed

text \<open>
  C6, as stated, fails in a build without \<open>ASSERT\<close>: the loop body of \<open>verify\<close> is
  one assertion, so nothing is compared, and \<open>verify\<close> returns normally on two maps
  whose tables differ at register 2.
\<close>

theorem verify_product_counterexample:
  "m_location (example_map 4 True) ! 2 \<noteq>
     m_location ((example_map 4 True)\<lparr>m_location := [0xDEAD, 0xDEAD, 0x1000, 0xDEAD]\<rparr>) ! 2 \<and>
   verify (example_platform False 4) (example_map 4 True)
     ((example_map 4 True)\<lparr>m_location := [0xDEAD, 0xDEAD, 0x1000, 0xDEAD]\<rparr>) = Inr ()"
  by (simp add: verify_def verify_from_product example_platform_def example_map_def)

text \<open>
  C6, amended: in a build with \<open>ASSERT\<close>, \<open>verify\<close> compares the two raw location
  tables at every register index below \<open>reg_count\<close>; it returns normally when they
  agree at all of them and stops at the failed assertion otherwise. It never yields a
  map or a value chosen from one of the two tables.
\<close>

theorem verify_debug:
  assumes "ASSERT cfg" "wf_map cfg m" "wf_map cfg other"
  shows "verify cfg m other =
    (if \<forall>i < number_of_registers cfg. m_location m ! i = m_location other ! i
     then Inr () else Inl (AssertionFailure []))"
proof -
  have "(\<forall>j. 0 \<le> j \<and> j < reg_count cfg \<longrightarrow> m_location m ! nat j = m_location other ! nat j) =
        (\<forall>i < number_of_registers cfg. m_location m ! i = m_location other ! i)"
  proof
    assume a: "\<forall>j. 0 \<le> j \<and> j < reg_count cfg \<longrightarrow>
      m_location m ! nat j = m_location other ! nat j"
    show "\<forall>i < number_of_registers cfg. m_location m ! i = m_location other ! i"
    proof (intro allI impI)
      fix i assume "i < number_of_registers cfg"
      then have "0 \<le> int i \<and> int i < reg_count cfg" by (simp add: reg_count_def)
      with a have "m_location m ! nat (int i) = m_location other ! nat (int i)" by blast
      then show "m_location m ! i = m_location other ! i" by simp
    qed
  next
    assume a: "\<forall>i < number_of_registers cfg. m_location m ! i = m_location other ! i"
    show "\<forall>j. 0 \<le> j \<and> j < reg_count cfg \<longrightarrow>
      m_location m ! nat j = m_location other ! nat j"
    proof (intro allI impI)
      fix j assume "0 \<le> j \<and> j < reg_count cfg"
      then have "nat j < number_of_registers cfg" by (simp add: reg_count_def nat_less_iff)
      with a show "m_location m ! nat j = m_location other ! nat j" by blast
    qed
  qed
  then show ?thesis
    using verify_from_debug [OF assms, of 0] by (simp add: verify_def)
qed

text \<open>
  C6, amended: tables that differ at register 2 fail the assertion; maps that differ
  in their validity bits only pass.
\<close>

theorem verify_debug_witness:
  "verify (example_platform True 4) (example_map 4 True)
     ((example_map 4 True)\<lparr>m_location := [0xDEAD, 0xDEAD, 0x1000, 0xDEAD]\<rparr>) =
     Inl (AssertionFailure []) \<and>
   verify (example_platform True 4) (example_map 4 True)
     ((example_map 4 True)\<lparr>m_location_valid := [4]\<rparr>) = Inr ()"
proof -
  let ?cfg = "example_platform True 4"
  let ?a = "example_map 4 True"
  let ?b = "(example_map 4 True)\<lparr>m_location := [0xDEAD, 0xDEAD, 0x1000, 0xDEAD]\<rparr>"
  let ?c = "(example_map 4 True)\<lparr>m_location_valid := [4]\<rparr>"
  have d: "ASSERT ?cfg" by (simp add: example_platform_def)
  have wa: "wf_map ?cfg ?a" by (rule wf_example_map)
  have wb: "wf_map ?cfg ?b"
    by (simp add: wf_map_def example_platform_def example_map_def reg_count_def
        location_valid_size_eq)
  have wc: "wf_map ?cfg ?c"
    by (simp add: wf_map_def example_platform_def example_map_def reg_count_def
        location_valid_size_eq)
  have n: "number_of_registers ?cfg = 4" by (simp add: example_platform_def)
  have ne: "\<not> (\<forall>i<4. m_location ?a ! i = m_location ?b ! i)"
  proof
    assume "\<forall>i<4. m_location ?a ! i = m_location ?b ! i"
    then have "m_location ?a ! 2 = m_location ?b ! 2" by simp
    then show False by (simp add: example_map_def)
  qed
  have "verify ?cfg ?a ?b = Inl (AssertionFailure [])"
    using verify_debug [OF d wa wb] ne by (simp add: n)
  moreover have "verify ?cfg ?a ?c = Inr ()"
    using verify_debug [OF d wa wc] by (simp add: n)
  ultimately show ?thesis by simp
qed

text \<open>
  C7, as stated, fails at the largest \<open>int\<close>: after the public setter has put the index
  at \<open>INT_MAX\<close>, the increment of \<open>set_stack_chunk\<close> leaves a smaller index.
\<close>

theorem set_stack_chunk_counterexample:
  "sint (stack_chunk_index
          (set_stack_chunk (set_stack_chunk_index (example_map 4 True) 0x7FFFFFFF) 0x2000))
     < sint (stack_chunk_index (set_stack_chunk_index (example_map 4 True) 0x7FFFFFFF))"
  by (simp add: stack_chunk_index_def set_stack_chunk_def set_stack_chunk_index_def)

text \<open>
  C7, amended: \<open>set_stack_chunk\<close> attaches the chunk and adds one to the index, and
  the index read as a signed integer is strictly larger afterwards, as long as it was
  below \<open>INT_MAX\<close> before the call.
\<close>

theorem set_stack_chunk_increments:
  assumes "stack_chunk_index m \<noteq> 0x7FFFFFFF"
  shows "stack_chunk (set_stack_chunk m chunk) = chunk \<and>
         stack_chunk_index (set_stack_chunk m chunk) = stack_chunk_index m + 1 \<and>
         sint (stack_chunk_index (set_stack_chunk m chunk)) = sint (stack_chunk_index m) + 1 \<and>
         sint (stack_chunk_index m) < sint (stack_chunk_index (set_stack_chunk m chunk))"
  using sint_c_int_succ [OF sint_c_int_not_max [OF assms]]
  by (simp add: stack_chunk_def stack_chunk_index_def set_stack_chunk_def)

text \<open>C7, amended, over two successive calls on a fresh map.\<close>

theorem set_stack_chunk_increments_witness:
  "stack_chunk (set_stack_chunk (example_map 4 True) 0x2000) = 0x2000 \<and>
   stack_chunk_index (set_stack_chunk (example_map 4 True) 0x2000) = 1 \<and>
   stack_chunk_index (set_stack_chunk (set_stack_chunk (example_map 4 True) 0x2000) 0x3000) = 2"
  using set_stack_chunk_increments [of "example_map 4 True" "0x2000"]
    set_stack_chunk_increments [of "set_stack_chunk (example_map 4 True) 0x2000" "0x3000"]
  by (simp add: stack_chunk_index_def set_stack_chunk_def example_map_def)

text \<open>
  C8, as stated, fails for the lookup of a register that is not valid: its value is the
  platform fallback, a member function that reads the map. On the platform above,
  recording register 0 moves the location of register 1, the upper half of the same
  composite register, from \<open>NULL\<close> to \<open>0x1004\<close>.
\<close>

theorem set_location_frame_counterexample:
  "set_location (example_platform True 4) (example_map 4 True) 0 0x1000 =
     Inr ((example_map 4 True)
            \<lparr>m_location := [0x1000, 0xDEAD, 0xDEAD, 0xDEAD], m_location_valid := [1]\<rparr>) \<and>
   location (example_platform True 4) (example_map 4 True) 1 0x100 = Inr NULL \<and>
   location (example_platform True 4)
     ((example_map 4 True)
        \<lparr>m_location := [0x1000, 0xDEAD, 0xDEAD, 0xDEAD], m_location_valid := [1]\<rparr>) 1 0x100 =
     Inr 0x1004"
  by code_simp

text \<open>
  C8, amended: a returning \<open>set_location(r, addr)\<close> leaves, for every other register
  \<open>r'\<close>, the stored location, the validity bit and \<open>trusted_location(r')\<close> unchanged,
  and \<open>location(r', fp)\<close> too when \<open>r'\<close> is valid or the platform fallback for \<open>r'\<close>
  is the same on the updated map; the fields \<open>include_argument_oops\<close>, \<open>thread\<close>,
  \<open>chunk\<close>, \<open>chunk_index\<close>, \<open>update_map\<close>, \<open>process_frames\<close> and \<open>walk_cont\<close> (and
  the debug-only fields) are unchanged.
\<close>

theorem set_location_frame:
  assumes "set_location cfg m r addr = Inr m'" "r' \<noteq> r" "0 \<le> r'"
  shows "m_location m' ! nat r' = m_location m ! nat r' \<and>
         location_valid_bit m' r' = location_valid_bit m r' \<and>
         trusted_location m' r' = trusted_location m r' \<and>
         (location_valid_bit m r' \<or> pd_location cfg m' r' = pd_location cfg m r' \<longrightarrow>
            location cfg m' r' fp = location cfg m r' fp) \<and>
         include_argument_oops m' = include_argument_oops m \<and>
         thread m' = thread m \<and>
         stack_chunk m' = stack_chunk m \<and>
         stack_chunk_index m' = stack_chunk_index m \<and>
         update_map m' = update_map m \<and>
         process_frames m' = process_frames m \<and>
         walk_cont m' = walk_cont m \<and>
         m_skip_missing m' = m_skip_missing m \<and>
         m_async m' = m_async m \<and>
         m_update_for_id m' = m_update_for_id m"
proof -
  note d = set_location_InrD [OF assms(1)]
  have tbl: "m_location m' ! nat r' = m_location m ! nat r'"
    using assms(2,3) d(1) by (simp add: d(7))
  have tr: "trusted_location m' r' = trusted_location m r'"
    using tbl by (simp add: trusted_location_def array_at_def d(7))
  have fields: "include_argument_oops m' = include_argument_oops m \<and>
         thread m' = thread m \<and>
         stack_chunk m' = stack_chunk m \<and>
         stack_chunk_index m' = stack_chunk_index m \<and>
         update_map m' = update_map m \<and>
         process_frames m' = process_frames m \<and>
         walk_cont m' = walk_cont m \<and>
         m_skip_missing m' = m_skip_missing m \<and>
         m_async m' = m_async m \<and>
         m_update_for_id m' = m_update_for_id m"
    by (simp add: d(7) include_argument_oops_def thread_def stack_chunk_def
        stack_chunk_index_def update_map_def process_frames_def walk_cont_def)
  show ?thesis
    using tbl tr fields location_valid_bit_other [OF assms] location_other [OF assms]
    by blast
qed

text \<open>
  C8, amended, on 70 registers: recording register 65 changes neither the lookup of
  register 66 (valid, same validity word) nor that of register 3 (not valid).
\<close>

theorem set_location_frame_witness:
  "location (example_platform True 70)
     ((example_map 70 True)
        \<lparr>m_location := (replicate 70 0xDEAD)[66 := 0x1000, 65 := 0x2000],
         m_location_valid := [0, 6]\<rparr>) 66 0x100 = Inr 0x1000 \<and>
   location (example_platform True 70)
     ((example_map 70 True)
        \<lparr>m_location := (replicate 70 0xDEAD)[66 := 0x1000, 65 := 0x2000],
         m_location_valid := [0, 6]\<rparr>) 3 0x100 = Inr NULL"
proof -
  let ?cfg = "example_platform True 70"
  let ?m = "(example_map 70 True)
        \<lparr>m_location := (replicate 70 0xDEAD)[66 := 0x1000], m_location_valid := [0, 4]\<rparr>"
  let ?m' = "(example_map 70 True)
        \<lparr>m_location := (replicate 70 0xDEAD)[66 := 0x1000, 65 := 0x2000],
         m_location_valid := [0, 6]\<rparr>"
  have w: "wf_map ?cfg ?m"
    by (simp add: wf_map_def example_platform_def example_map_def reg_count_def
        location_valid_size_eq)
  have r: "(0::int) \<le> 65" "65 < reg_count ?cfg" "(0::int) \<le> 66" "66 < reg_count ?cfg"
    "(0::int) \<le> 3" "3 < reg_count ?cfg"
    by (simp_all add: reg_count_def example_platform_def)
  have u: "ASSERT ?cfg \<longrightarrow> m_update_map ?m"
    by (simp add: example_map_def)
  have c: "check_location_valid ?cfg x" for x
    by (simp add: example_platform_def)
  have s: "set_location ?cfg ?m 65 0x2000 = Inr ?m'"
    by (simp add: set_location_in_range [OF w r(1,2) u] Let_def c)
  have v: "location_valid_bit ?m 66"
    by (simp add: location_valid_bit_def)
  have p: "pd_location ?cfg ?m' 3 = pd_location ?cfg ?m 3"
    by (simp add: example_platform_def)
  have "location ?cfg ?m' 66 0x100 = location ?cfg ?m 66 0x100"
    using set_location_frame [OF s, of 66 "0x100"] v by simp
  moreover have "location ?cfg ?m 66 0x100 = Inr 0x1000"
    using v by (simp add: location_in_range [OF w r(3,4)])
  moreover have "location ?cfg ?m' 3 0x100 = location ?cfg ?m 3 0x100"
    using set_location_frame [OF s, of 3 "0x100"] p by simp
  moreover have "location ?cfg ?m 3 0x100 = Inr NULL"
    by (simp add: location_in_range [OF w r(5,6)] location_valid_bit_def)
       (simp add: example_platform_def)
  ultimately show ?thesis by simp
qed

text \<open>
  C9. For every slot index that is zero or negative the slot overload is the scalar
  lookup with a null frame pointer; a positive one goes to the platform's multi-slot
  resolver.
\<close>

theorem location_slot_nonpositive:
  "(sint slot_idx \<le> 0 \<longrightarrow>
      location_slot cfg m base_reg slot_idx = location cfg m base_reg NULL) \<and>
   (0 < sint slot_idx \<longrightarrow>
      location_slot cfg m base_reg slot_idx = Inr (pd_location_slot cfg m base_reg slot_idx))"
  by (simp add: location_slot_def)

text \<open>C9, at slot indices -3 and 7.\<close>

theorem location_slot_nonpositive_witness:
  "sint (- 3 :: c_int) \<le> 0 \<and>
   location_slot (example_platform True 4)
     ((example_map 4 True)\<lparr>m_location_valid := [4]\<rparr>) 2 (- 3) =
   location (example_platform True 4)
     ((example_map 4 True)\<lparr>m_location_valid := [4]\<rparr>) 2 NULL \<and>
   location_slot (example_platform True 4)
     ((example_map 4 True)\<lparr>m_location_valid := [4]\<rparr>) 2 7 = Inr 0x9000"
  using location_slot_nonpositive [of "- 3" "example_platform True 4"
      "(example_map 4 True)\<lparr>m_location_valid := [4]\<rparr>" 2]
    location_slot_nonpositive [of 7 "example_platform True 4"
      "(example_map 4 True)\<lparr>m_location_valid := [4]\<rparr>" 2]
  by (simp add: example_platform_def)

text \<open>
  C10. \<open>set_stack_chunk_index\<close> makes the index exactly its argument and leaves the
  chunk handle alone; an argument below the current index lowers it, so the index is not
  monotonic over the public operations.
\<close>

theorem set_stack_chunk_index_exact:
  "stack_chunk_index (set_stack_chunk_index m i) = i \<and>
   stack_chunk (set_stack_chunk_index m i) = stack_chunk m \<and>
   (sint i < sint (stack_chunk_index m) \<longrightarrow>
      sint (stack_chunk_index (set_stack_chunk_index m i)) < sint (stack_chunk_index m))"
  by (simp add: stack_chunk_index_def set_stack_chunk_index_def stack_chunk_def)

text \<open>C10, lowering the index from 5 to -1.\<close>

theorem set_stack_chunk_index_exact_witness:
  "sint (- 1 :: c_int) < sint (stack_chunk_index ((example_map 4 True)\<lparr>m_chunk_index := 5\<rparr>)) \<and>
   sint (stack_chunk_index
          (set_stack_chunk_index ((example_map 4 True)\<lparr>m_chunk_index := 5\<rparr>) (- 1)))
     < sint (stack_chunk_index ((example_map 4 True)\<lparr>m_chunk_index := 5\<rparr>))"
  using set_stack_chunk_index_exact
    [where i = "- 1" and m = "(example_map 4 True)\<lparr>m_chunk_index := 5\<rparr>"]
  by (simp add: stack_chunk_index_def)

end
